theory Spec2Isabelle
  imports Main "HOL-Library.Word" "HOL-Library.AList"
begin

section \<open>Qt value types used by \<open>JSON/Action.cpp\<close>\<close>

text \<open>
  \<open>JSON::Action\<close> is written against Qt. The Qt types it touches are modelled here, each as
  far as the member functions of \<open>Action.cpp\<close> use it:
  \<^item> a \<open>QChar\<close> is a UTF-16 code unit, a \<open>QString\<close> a sequence of them;
  \<^item> a \<open>QByteArray\<close> is a sequence of bytes;
  \<^item> the C++ \<open>int\<close> is a 32-bit two's complement word (\<open>sint\<close> reads its value).
\<close>

type_synonym QChar = "16 word"
type_synonym QString = "QChar list"
type_synonym QByteArray = "8 word list"
type_synonym cint = "32 word"

text \<open>
  A string literal of the source (\<open>QStringLiteral("icon")\<close>, or a \<open>const char *\<close> converted
  implicitly, as in \<open>SAFE_READ(object, "eol", "")\<close>). Every literal of the file is ASCII, where
  both conversions give one code unit per character.
\<close>

definition QStringLiteral :: "string \<Rightarrow> QString" where
  "QStringLiteral s = map of_char s"

text \<open>\<open>QChar::Space\<close> and \<open>QChar::isSpace()\<close>: the controls U+0009..U+000D, U+0085, and the
  Unicode separators (categories Zs, Zl, Zp) of the Basic Multilingual Plane.\<close>

definition Space :: QChar where
  "Space = 0x20"

definition isSpace :: "QChar \<Rightarrow> bool" where
  "isSpace c =
     (c = 0x20 \<or> (0x09 \<le> c \<and> c \<le> 0x0D) \<or> c = 0x85 \<or> c = 0xA0 \<or> c = 0x1680
      \<or> (0x2000 \<le> c \<and> c \<le> 0x200A) \<or> c = 0x2028 \<or> c = 0x2029 \<or> c = 0x202F
      \<or> c = 0x205F \<or> c = 0x3000)"

text \<open>
  \<open>QString::simplified()\<close>: whitespace removed from both ends, every internal run of
  whitespace replaced by one space. The loop is Qt's: skip whitespace, copy a word, stop at the
  end of the input or write one space and go on; a space written last is taken back.
\<close>

function simplified_loop :: "QString \<Rightarrow> QString" where
  "simplified_loop src =
     (let src1 = dropWhile isSpace src;
          word = takeWhile (\<lambda>c. \<not> isSpace c) src1;
          src2 = dropWhile (\<lambda>c. \<not> isSpace c) src1
      in if src2 = [] then word else word @ Space # simplified_loop src2)"
  by pat_completeness auto
termination
proof (relation "measure length")
  show "wf (measure length)" by simp
next
  fix src src1 :: QString and word src2 :: QString
  assume s1: "src1 = dropWhile isSpace src"
    and s2: "src2 = dropWhile (\<lambda>c. \<not> isSpace c) src1"
    and ne: "src2 \<noteq> []"
  have le1: "length src1 \<le> length src"
    using s1 by (simp add: length_dropWhile_le)
  have le2: "length src2 \<le> length src1"
    using s2 by (simp add: length_dropWhile_le)
  have "length src2 < length src"
  proof (cases src)
    case Nil
    with s1 s2 ne show ?thesis by simp
  next
    case (Cons c cs)
    show ?thesis
    proof (cases "isSpace c")
      case True
      with Cons s1 have "src1 = dropWhile isSpace cs" by simp
      then have "length src1 \<le> length cs" by (simp add: length_dropWhile_le)
      with le2 Cons show ?thesis by simp
    next
      case False
      with Cons s1 s2 have "src2 = dropWhile (\<lambda>c. \<not> isSpace c) cs" by simp
      then have "length src2 \<le> length cs" by (simp add: length_dropWhile_le)
      with Cons show ?thesis by simp
    qed
  qed
  then show "(src2, src) \<in> measure length" by simp
qed

declare simplified_loop.simps [simp del]

definition chop_space :: "QString \<Rightarrow> QString" where
  "chop_space r = (if r \<noteq> [] \<and> last r = Space then butlast r else r)"

definition simplified :: "QString \<Rightarrow> QString" where
  "simplified s = chop_space (simplified_loop s)"

text \<open>
  What it means for a string to be whitespace-simplified, said without \<open>simplified\<close>: it
  does not start or end with whitespace, and every whitespace character in it is a space
  followed by a character that is not whitespace.
\<close>

fun simple_from :: "QString \<Rightarrow> bool" where
  "simple_from [] = True"
| "simple_from [c] = (\<not> isSpace c)"
| "simple_from (c # d # cs) =
     ((if isSpace c then c = Space \<and> \<not> isSpace d else True) \<and> simple_from (d # cs))"

definition is_simplified :: "QString \<Rightarrow> bool" where
  "is_simplified s = (case s of [] \<Rightarrow> True | c # _ \<Rightarrow> \<not> isSpace c \<and> simple_from s)"

subsection \<open>JSON values and objects\<close>

text \<open>
  A \<open>QJsonValue\<close> is one of Qt's seven kinds. The payload of a number is left as the type
  parameter \<open>'d\<close> (Qt's \<open>double\<close>): the two conversions between a number and a C++ \<open>int\<close>
  that the code relies on, \<open>QJsonValue(int)\<close> and the conversion to \<open>int\<close>, are arguments of
  \<open>serialize\<close> and \<open>read\<close>.

  A \<open>QJsonObject\<close> is a list of key/value pairs. \<open>insert\<close> replaces the value of a key that is
  already there, and removes the key when the value is \<open>Undefined\<close>; \<open>value\<close> of an absent
  key is \<open>Undefined\<close>.
\<close>

datatype 'd QJsonValue =
    Null
  | Bool bool
  | Double 'd
  | String QString
  | Array "'d QJsonValue list"
  | Object "(QString \<times> 'd QJsonValue) list"
  | Undefined

type_synonym 'd QJsonObject = "(QString \<times> 'd QJsonValue) list"

definition QJsonObject_isEmpty :: "'d QJsonObject \<Rightarrow> bool" where
  "QJsonObject_isEmpty object = (object = [])"

definition QJsonObject_contains :: "'d QJsonObject \<Rightarrow> QString \<Rightarrow> bool" where
  "QJsonObject_contains object key = (map_of object key \<noteq> None)"

definition QJsonObject_value :: "'d QJsonObject \<Rightarrow> QString \<Rightarrow> 'd QJsonValue" where
  "QJsonObject_value object key =
     (case map_of object key of Some v \<Rightarrow> v | None \<Rightarrow> Undefined)"

definition QJsonObject_insert ::
  "QString \<Rightarrow> 'd QJsonValue \<Rightarrow> 'd QJsonObject \<Rightarrow> 'd QJsonObject" where
  "QJsonObject_insert key v object =
     (if v = Undefined then AList.delete key object else AList.update key v object)"

definition QJsonObject_keys :: "'d QJsonObject \<Rightarrow> QString set" where
  "QJsonObject_keys object = fst ` set object"

subsection \<open>QVariant\<close>

text \<open>
  \<open>SAFE_READ\<close> returns a \<open>QVariant\<close>. At each of its call sites the variant holds either the
  \<open>QJsonValue\<close> found under the key (\<open>QVariant(const QJsonValue &)\<close>) or the default, whose C++
  type is fixed there: a \<open>QString\<close> made from \<open>""\<close>, a \<open>bool\<close> or an \<open>int\<close>. The type
  parameter \<open>'a\<close> is that type, and each conversion is modelled on the two contents it can meet:
  the default converts to itself; a JSON value of the matching kind converts to its payload and
  a JSON value of another kind does not convert, which in Qt gives the empty string, \<open>false\<close>
  or \<open>0\<close>.
\<close>

datatype ('d, 'a) QVariant = JsonVariant "'d QJsonValue" | Variant 'a

fun toString :: "('d, QString) QVariant \<Rightarrow> QString" where
  "toString (Variant s) = s"
| "toString (JsonVariant (String s)) = s"
| "toString (JsonVariant _) = []"

fun toBool :: "('d, bool) QVariant \<Rightarrow> bool" where
  "toBool (Variant b) = b"
| "toBool (JsonVariant (Bool b)) = b"
| "toBool (JsonVariant _) = False"

fun toInt :: "('d \<Rightarrow> cint) \<Rightarrow> ('d, cint) QVariant \<Rightarrow> cint" where
  "toInt double_toInt (Variant n) = n"
| "toInt double_toInt (JsonVariant (Double d)) = double_toInt d"
| "toInt double_toInt (JsonVariant _) = 0"

section \<open>The Action class\<close>

text \<open>
  \<open>enum TimerMode\<close> is declared in \<open>JSON/Action.h\<close>. The code converts it to and from
  \<open>int\<close> with \<open>static_cast\<close>, so a value is its underlying integer: \<open>TimerMode n\<close> is
  \<open>static_cast<TimerMode>(n)\<close> and \<open>underlying m\<close> is \<open>static_cast<int>(m)\<close>.
\<close>

datatype TimerMode = TimerMode (underlying: cint)

text \<open>Modelled from the spec: the four enumerators of \<open>TimerMode\<close>, numbered in the order
  the data model lists them (the header that declares them is not among the sources).\<close>

definition Off :: TimerMode where
  "Off = TimerMode 0"

definition AutoStart :: TimerMode where
  "AutoStart = TimerMode 1"

definition StartOnTrigger :: TimerMode where
  "StartOnTrigger = TimerMode 2"

definition ToggleOnTrigger :: TimerMode where
  "ToggleOnTrigger = TimerMode 3"

definition named :: "TimerMode \<Rightarrow> bool" where
  "named m = (m \<in> {Off, AutoStart, StartOnTrigger, ToggleOnTrigger})"

record Action =
  m_actionId :: cint
  m_binaryData :: bool
  m_icon :: QString
  m_title :: QString
  m_txData :: QString
  m_eolSequence :: QString
  m_timerIntervalMs :: cint
  m_timerMode :: TimerMode
  m_autoExecuteOnConnect :: bool

text \<open>\<open>static QVariant SAFE_READ(object, key, defaultValue)\<close>\<close>

definition SAFE_READ ::
  "'d QJsonObject \<Rightarrow> QString \<Rightarrow> ('d, 'a) QVariant \<Rightarrow> ('d, 'a) QVariant" where
  "SAFE_READ object key defaultValue =
     (if QJsonObject_contains object key then JsonVariant (QJsonObject_value object key)
      else defaultValue)"

text \<open>\<open>JSON::Action::Action(const int actionId)\<close>\<close>

definition Action :: "cint \<Rightarrow> Action" where
  "Action actionId =
     \<lparr> m_actionId = actionId,
       m_binaryData = False,
       m_icon = QStringLiteral ''Play Property'',
       m_title = QStringLiteral '''',
       m_txData = QStringLiteral '''',
       m_eolSequence = QStringLiteral '''',
       m_timerIntervalMs = 100,
       m_timerMode = Off,
       m_autoExecuteOnConnect = False \<rparr>"

text \<open>The read accessors.\<close>

definition actionId :: "Action \<Rightarrow> cint" where
  "actionId this = m_actionId this"

definition binaryData :: "Action \<Rightarrow> bool" where
  "binaryData this = m_binaryData this"

definition icon :: "Action \<Rightarrow> QString" where
  "icon this = m_icon this"

definition title :: "Action \<Rightarrow> QString" where
  "title this = m_title this"

definition txData :: "Action \<Rightarrow> QString" where
  "txData this = m_txData this"

definition eolSequence :: "Action \<Rightarrow> QString" where
  "eolSequence this = m_eolSequence this"

definition timerMode :: "Action \<Rightarrow> TimerMode" where
  "timerMode this = m_timerMode this"

definition timerIntervalMs :: "Action \<Rightarrow> cint" where
  "timerIntervalMs this = m_timerIntervalMs this"

definition autoExecuteOnConnect :: "Action \<Rightarrow> bool" where
  "autoExecuteOnConnect this = m_autoExecuteOnConnect this"

text \<open>
  The other member functions take the object and return their result together with the object
  after the call.

  \<open>QByteArray JSON::Action::txByteArray() const\<close>. Its three helpers are arguments:
  \<open>SerialStudio::hexToBytes\<close>, \<open>SerialStudio::resolveEscapeSequences\<close> and
  \<open>QString::toUtf8\<close>. The local \<open>bin\<close> is assigned, then appended to.
\<close>

definition txByteArray ::
  "(QString \<Rightarrow> QByteArray) \<Rightarrow> (QString \<Rightarrow> QString) \<Rightarrow> (QString \<Rightarrow> QByteArray)
    \<Rightarrow> Action \<Rightarrow> QByteArray \<times> Action" where
  "txByteArray hexToBytes resolveEscapeSequences toUtf8 this =
     (let bin = (if binaryData this then hexToBytes (txData this)
                 else toUtf8 (resolveEscapeSequences (txData this)));
          bin = (if eolSequence this \<noteq> []
                 then bin @ toUtf8 (resolveEscapeSequences (eolSequence this))
                 else bin)
      in (bin, this))"

text \<open>\<open>QJsonObject JSON::Action::serialize() const\<close>; \<open>ofInt\<close> is \<open>QJsonValue(int)\<close>.\<close>

definition serialize :: "(cint \<Rightarrow> 'd) \<Rightarrow> Action \<Rightarrow> 'd QJsonObject \<times> Action" where
  "serialize ofInt this =
     (let object = [];
          object = QJsonObject_insert (QStringLiteral ''icon'') (String (m_icon this)) object;
          object = QJsonObject_insert (QStringLiteral ''txData'') (String (m_txData this)) object;
          object = QJsonObject_insert (QStringLiteral ''eol'') (String (m_eolSequence this)) object;
          object = QJsonObject_insert (QStringLiteral ''binary'') (Bool (m_binaryData this)) object;
          object = QJsonObject_insert (QStringLiteral ''title'')
                     (String (simplified (m_title this))) object;
          object = QJsonObject_insert (QStringLiteral ''timerIntervalMs'')
                     (Double (ofInt (m_timerIntervalMs this))) object;
          object = QJsonObject_insert (QStringLiteral ''timerMode'')
                     (Double (ofInt (underlying (m_timerMode this)))) object;
          object = QJsonObject_insert (QStringLiteral ''autoExecuteOnConnect'')
                     (Bool (m_autoExecuteOnConnect this)) object
      in (object, this))"

text \<open>\<open>bool JSON::Action::read(const QJsonObject &object)\<close>; \<open>double_toInt\<close> is the conversion
  of a JSON number to \<open>int\<close> inside \<open>QVariant::toInt\<close>.\<close>

definition read :: "('d \<Rightarrow> cint) \<Rightarrow> Action \<Rightarrow> 'd QJsonObject \<Rightarrow> bool \<times> Action" where
  "read double_toInt this object =
     (if \<not> QJsonObject_isEmpty object then
        (True,
         this\<lparr> m_eolSequence :=
                 toString (SAFE_READ object (QStringLiteral ''eol'') (Variant (QStringLiteral ''''))),
               m_txData :=
                 toString (SAFE_READ object (QStringLiteral ''txData'') (Variant (QStringLiteral ''''))),
               m_binaryData :=
                 toBool (SAFE_READ object (QStringLiteral ''binary'') (Variant False)),
               m_timerIntervalMs :=
                 toInt double_toInt
                   (SAFE_READ object (QStringLiteral ''timerIntervalMs'') (Variant 100)),
               m_icon :=
                 simplified
                   (toString (SAFE_READ object (QStringLiteral ''icon'') (Variant (QStringLiteral '''')))),
               m_title :=
                 simplified
                   (toString (SAFE_READ object (QStringLiteral ''title'') (Variant (QStringLiteral '''')))),
               m_autoExecuteOnConnect :=
                 toBool (SAFE_READ object (QStringLiteral ''autoExecuteOnConnect'') (Variant False)),
               m_timerMode :=
                 TimerMode
                   (toInt double_toInt
                      (SAFE_READ object (QStringLiteral ''timerMode'') (Variant (underlying Off)))) \<rparr>)
      else (False, this))"

text \<open>The eight keys of the persisted object.\<close>

definition expected_keys :: "QString list" where
  "expected_keys =
     map QStringLiteral
       [''icon'', ''txData'', ''eol'', ''binary'', ''title'', ''timerIntervalMs'', ''timerMode'',
        ''autoExecuteOnConnect'']"

section \<open>The hexadecimal decoder\<close>

text \<open>
  Modelled from the spec: \<open>SerialStudio::hexToBytes\<close>, which is defined outside
  \<open>Action.cpp\<close>. The text is read as a sequence of hexadecimal byte pairs, whitespace is
  ignored, both letter cases are accepted, and a malformed pair is dropped. A last character
  without a partner is an incomplete pair and is dropped as well.
\<close>

definition hexDigit :: "QChar \<Rightarrow> nat option" where
  "hexDigit c =
     (if 0x30 \<le> c \<and> c \<le> 0x39 then Some (unat c - 0x30)
      else if 0x41 \<le> c \<and> c \<le> 0x46 then Some (unat c - 0x41 + 10)
      else if 0x61 \<le> c \<and> c \<le> 0x66 then Some (unat c - 0x61 + 10)
      else None)"

definition hexPair :: "QChar \<Rightarrow> QChar \<Rightarrow> QByteArray" where
  "hexPair hi lo =
     (case hexDigit hi of
        None \<Rightarrow> []
      | Some h \<Rightarrow> (case hexDigit lo of None \<Rightarrow> [] | Some l \<Rightarrow> [of_nat (16 * h + l)]))"

fun hexPairs :: "QString \<Rightarrow> QByteArray" where
  "hexPairs (hi # lo # rest) = hexPair hi lo @ hexPairs rest"
| "hexPairs _ = []"

definition hexToBytes :: "QString \<Rightarrow> QByteArray" where
  "hexToBytes s = hexPairs (filter (\<lambda>c. \<not> isSpace c) s)"

section \<open>Facts about the Qt model\<close>

lemma unat_of_char: "unat (of_char c :: QChar) = (of_char c :: nat)"
proof -
  have lt: "(of_char c :: nat) < 2 ^ 16"
    by (rule less_trans [OF nat_of_char_less_256]) simp
  have "(of_char c :: QChar) = of_nat (of_char c)"
    by (simp only: of_nat_of_char)
  then have "unat (of_char c :: QChar) = (of_char c :: nat) mod 2 ^ 16"
    by (simp only: unat_of_nat) simp
  with lt show ?thesis by simp
qed

text \<open>Two literals are the same key exactly when they are the same text.\<close>

lemma QStringLiteral_eq_iff [simp]: "QStringLiteral s = QStringLiteral t \<longleftrightarrow> s = t"
proof -
  have "inj (of_char :: char \<Rightarrow> QChar)"
  proof (rule injI)
    fix x y :: char
    assume "(of_char x :: QChar) = of_char y"
    then have "unat (of_char x :: QChar) = unat (of_char y :: QChar)" by simp
    then have "(of_char x :: nat) = of_char y" by (simp only: unat_of_char)
    then show "x = y" by simp
  qed
  then show ?thesis
    by (simp add: QStringLiteral_def inj_eq inj_mapI)
qed

lemma QStringLiteral_Nil [simp]: "QStringLiteral '''' = []"
  by (simp add: QStringLiteral_def)

subsection \<open>\<open>simplified\<close> yields simplified strings and leaves them alone\<close>

lemma isSpace_Space [simp]: "isSpace Space"
  by (simp add: isSpace_def Space_def)

lemma simplified_loop_dropWhile: "simplified_loop (dropWhile isSpace s) = simplified_loop s"
  by (subst simplified_loop.simps, subst (2) simplified_loop.simps) simp

lemma simple_from_word: "\<forall>c \<in> set w. \<not> isSpace c \<Longrightarrow> simple_from w"
  by (induction w rule: simple_from.induct) auto

lemma simple_from_word_append:
  "\<forall>c \<in> set w. \<not> isSpace c \<Longrightarrow> w \<noteq> [] \<Longrightarrow> simple_from t \<Longrightarrow> t \<noteq> [] \<Longrightarrow> \<not> isSpace (hd t)
    \<Longrightarrow> simple_from (w @ Space # t)"
proof (induction w rule: simple_from.induct)
  case 1
  then show ?case by simp
next
  case (2 c)
  then show ?case by (cases t) auto
next
  case (3 c d cs)
  then show ?case by auto
qed

lemma is_simplified_word: "\<forall>c \<in> set w. \<not> isSpace c \<Longrightarrow> is_simplified w"
  by (cases w) (auto simp: is_simplified_def simple_from_word simp del: simple_from.simps)

lemma is_simplified_word_append:
  assumes "\<forall>c \<in> set w. \<not> isSpace c" and "w \<noteq> []" and "is_simplified t" and "t \<noteq> []"
  shows "is_simplified (w @ Space # t)"
proof -
  from assms(3,4) have t: "simple_from t" "\<not> isSpace (hd t)"
    by (auto simp: is_simplified_def split: list.splits)
  from assms(1,2) have "\<not> isSpace (hd (w @ Space # t))"
    by (cases w) auto
  moreover have "simple_from (w @ Space # t)"
    by (rule simple_from_word_append [OF assms(1,2) t(1) assms(4) t(2)])
  ultimately show ?thesis
    using assms(2) by (cases w) (auto simp: is_simplified_def)
qed

lemma simple_from_last: "simple_from t \<Longrightarrow> t \<noteq> [] \<Longrightarrow> \<not> isSpace (last t)"
  by (induction t rule: simple_from.induct) (auto split: if_splits)

lemma loop_shape:
  "(simplified_loop s = [] \<or> \<not> isSpace (hd (simplified_loop s)))
   \<and> is_simplified (chop_space (simplified_loop s))"
proof (induction s rule: simplified_loop.induct)
  case (1 src)
  define src1 where "src1 = dropWhile isSpace src"
  define word where "word = takeWhile (\<lambda>c. \<not> isSpace c) src1"
  define src2 where "src2 = dropWhile (\<lambda>c. \<not> isSpace c) src1"
  have w_free: "\<forall>c \<in> set word. \<not> isSpace c"
    unfolding word_def by (auto dest: set_takeWhileD)
  have unfold: "simplified_loop src = (if src2 = [] then word else word @ Space # simplified_loop src2)"
    by (subst simplified_loop.simps) (simp add: src1_def word_def src2_def Let_def)
  show ?case
  proof (cases "src2 = []")
    case True
    then have r: "simplified_loop src = word" using unfold by simp
    have "chop_space word = word"
    proof (cases "word = []")
      case True
      then show ?thesis by (simp add: chop_space_def)
    next
      case False
      then have "\<not> isSpace (last word)"
        using w_free last_in_set by blast
      then have "last word \<noteq> Space" by auto
      then show ?thesis by (simp add: chop_space_def)
    qed
    moreover have "word = [] \<or> \<not> isSpace (hd word)"
      using w_free by (cases word) auto
    ultimately show ?thesis
      using r w_free by (simp add: is_simplified_word)
  next
    case False
    then have r: "simplified_loop src = word @ Space # simplified_loop src2" using unfold by simp
    have src1_ne: "src1 \<noteq> []" using False src2_def by auto
    then have "\<not> isSpace (hd src1)"
      unfolding src1_def by (metis hd_dropWhile)
    then have w_ne: "word \<noteq> []"
      using src1_ne unfolding word_def by (cases src1) auto
    have IH: "(simplified_loop src2 = [] \<or> \<not> isSpace (hd (simplified_loop src2)))
       \<and> is_simplified (chop_space (simplified_loop src2))"
      using "1.IH" [OF src1_def word_def src2_def False] .
    have hd: "\<not> isSpace (hd (simplified_loop src))"
      using r w_ne w_free by (cases word) auto
    show ?thesis
    proof (cases "simplified_loop src2 = []")
      case True
      then have "chop_space (simplified_loop src) = word"
        using r by (simp add: chop_space_def)
      then show ?thesis using hd w_free by (simp add: is_simplified_word)
    next
      case ne: False
      let ?r = "simplified_loop src2"
      from ne IH have hd2: "\<not> isSpace (hd ?r)" by simp
      have chop_ne: "chop_space ?r \<noteq> []"
      proof
        assume "chop_space ?r = []"
        then have "?r = [Space]"
          using ne by (auto simp: chop_space_def split: if_splits) (metis append_butlast_last_id append_Nil)
        with hd2 show False by simp
      qed
      have "chop_space (simplified_loop src) = word @ Space # chop_space ?r"
        using r ne by (auto simp: chop_space_def butlast_append)
      then show ?thesis
        using hd is_simplified_word_append [OF w_free w_ne _ chop_ne] IH by simp
    qed
  qed
qed

lemma is_simplified_simplified: "is_simplified (simplified s)"
  using loop_shape [of s] by (simp add: simplified_def)


lemma simple_from_split:
  "simple_from (w @ x # rest) \<Longrightarrow> \<forall>c \<in> set w. \<not> isSpace c \<Longrightarrow> w \<noteq> [] \<Longrightarrow> isSpace x
    \<Longrightarrow> x = Space \<and> rest \<noteq> [] \<and> \<not> isSpace (hd rest) \<and> simple_from rest"
proof (induction w rule: simple_from.induct)
  case 1
  then show ?case by simp
next
  case (2 c)
  then show ?case by (cases rest) auto
next
  case (3 c d cs)
  then show ?case by auto
qed

lemma simplified_loop_Nil: "simplified_loop [] = []"
  by (subst simplified_loop.simps) simp

lemma simplified_loop_fixed: "is_simplified t \<Longrightarrow> simplified_loop t = t"
proof (induction t rule: length_induct)
  case (1 t)
  show ?case
  proof (cases t)
    case Nil
    then show ?thesis by (simp add: simplified_loop_Nil)
  next
    case (Cons c cs)
    with "1.prems" have c: "\<not> isSpace c" and sf: "simple_from t"
      by (auto simp: is_simplified_def)
    define word where "word = takeWhile (\<lambda>c. \<not> isSpace c) t"
    define src2 where "src2 = dropWhile (\<lambda>c. \<not> isSpace c) t"
    have src1: "dropWhile isSpace t = t"
      using Cons c by simp
    have t: "t = word @ src2"
      by (simp add: word_def src2_def)
    have w_free: "\<forall>c \<in> set word. \<not> isSpace c"
      unfolding word_def by (auto dest: set_takeWhileD)
    have w_ne: "word \<noteq> []"
      using Cons c by (simp add: word_def)
    have unfold: "simplified_loop t = (if src2 = [] then word else word @ Space # simplified_loop src2)"
      by (subst simplified_loop.simps) (simp add: src1 word_def src2_def Let_def)
    show ?thesis
    proof (cases src2)
      case Nil
      with unfold t show ?thesis by simp
    next
      case (Cons x rest)
      have "src2 \<noteq> []"
        using Cons by simp
      then have "\<not> \<not> isSpace (hd src2)"
        unfolding src2_def by (rule hd_dropWhile)
      then have x: "isSpace x"
        using Cons by simp
      have "simple_from (word @ x # rest)"
        using sf t Cons by simp
      from simple_from_split [OF this w_free w_ne x]
      have xs: "x = Space" and rest: "rest \<noteq> []" "\<not> isSpace (hd rest)" "simple_from rest"
        by simp_all
      have "is_simplified rest"
        using rest by (cases rest) (auto simp: is_simplified_def)
      moreover have "length rest < length t"
        using t Cons by (metis length_append length_Cons less_Suc_eq trans_less_add2)
      ultimately have IH: "simplified_loop rest = rest"
        using "1.IH" by blast
      have "dropWhile isSpace src2 = rest"
        using Cons x rest by (cases rest) auto
      then have "simplified_loop src2 = simplified_loop rest"
        using simplified_loop_dropWhile [of src2] by simp
      with IH unfold Cons xs t show ?thesis by simp
    qed
  qed
qed

lemma simplified_Nil [simp]: "simplified [] = []"
  by (simp add: simplified_def chop_space_def simplified_loop_Nil)

lemma simplified_fixed: "is_simplified t \<Longrightarrow> simplified t = t"
proof (cases t)
  case Nil
  then show ?thesis by simp
next
  case (Cons c cs)
  assume s: "is_simplified t"
  then have "simple_from t" using Cons by (simp add: is_simplified_def)
  moreover have "t \<noteq> []" using Cons by simp
  ultimately have "\<not> isSpace (last t)" by (rule simple_from_last)
  then have "last t \<noteq> Space" by auto
  then show ?thesis
    using s by (simp add: simplified_def chop_space_def simplified_loop_fixed)
qed

lemma simplified_eq_iff: "simplified t = t \<longleftrightarrow> is_simplified t"
  using is_simplified_simplified [of t] simplified_fixed [of t] by auto

lemma simplified_idem: "simplified (simplified s) = simplified s"
  by (simp add: simplified_fixed is_simplified_simplified)

subsection \<open>Objects and variants\<close>

lemma SAFE_READ_map_of:
  "SAFE_READ object key dflt =
     (case map_of object key of Some v \<Rightarrow> JsonVariant v | None \<Rightarrow> dflt)"
  by (simp add: SAFE_READ_def QJsonObject_contains_def QJsonObject_value_def
      split: option.split)

lemmas accessors =
  actionId_def binaryData_def icon_def title_def txData_def eolSequence_def timerMode_def
  timerIntervalMs_def autoExecuteOnConnect_def

lemma named_iff: "named (TimerMode n) = (n \<in> {0, 1, 2, 3})"
  by (auto simp: named_def Off_def AutoStart_def StartOnTrigger_def ToggleOnTrigger_def)

section \<open>Construction\<close>

text \<open>
  C8. For every \<open>actionId\<close> the constructor returns an Action (it has no failing branch)
  with that id, \<open>title\<close>, \<open>txData\<close> and \<open>eolSequence\<close> empty, \<open>icon\<close> the label
  "Play Property", \<open>binaryData = false\<close>, \<open>timerIntervalMs = 100\<close>, \<open>timerMode = Off\<close> and
  \<open>autoExecuteOnConnect = false\<close>. The id is read through \<open>actionId()\<close> and no member function
  of the file changes it: \<open>read\<close>, \<open>serialize\<close> and \<open>txByteArray\<close> all leave it as it was.
\<close>

theorem Action_init:
  "actionId (Action i) = i
   \<and> title (Action i) = [] \<and> txData (Action i) = [] \<and> eolSequence (Action i) = []
   \<and> icon (Action i) = QStringLiteral ''Play Property''
   \<and> binaryData (Action i) = False
   \<and> timerIntervalMs (Action i) = 100
   \<and> timerMode (Action i) = Off
   \<and> autoExecuteOnConnect (Action i) = False
   \<and> actionId (snd (read double_toInt this object)) = actionId this
   \<and> actionId (snd (serialize ofInt this)) = actionId this
   \<and> actionId (snd (txByteArray hex esc utf8 this)) = actionId this"
  by (simp add: Action_def accessors read_def serialize_def txByteArray_def Let_def)

section \<open>The payload builder\<close>

text \<open>
  C2. For every field state and whatever the three helpers compute, \<open>txByteArray()\<close> returns
  the hex-decoded bytes of \<open>txData\<close> when \<open>binaryData\<close> is set and the UTF-8 encoding of the
  escape-resolved \<open>txData\<close> otherwise, followed by the UTF-8 encoding of the escape-resolved
  \<open>eolSequence\<close> when \<open>eolSequence\<close> is not empty, and by nothing when it is empty.
\<close>

theorem txByteArray_payload:
  "fst (txByteArray hex esc utf8 a) =
     (if binaryData a then hex (txData a) else utf8 (esc (txData a)))
     @ (if eolSequence a = [] then [] else utf8 (esc (eolSequence a)))"
  by (simp add: txByteArray_def Let_def)

text \<open>
  C9. \<open>txByteArray()\<close> leaves the Action as it found it, and its result is determined by
  \<open>binaryData\<close>, \<open>txData\<close> and \<open>eolSequence\<close>: two Actions that agree on these three fields
  give the same bytes, whatever their other fields are.
\<close>

theorem txByteArray_pure:
  assumes "binaryData a = binaryData b" and "txData a = txData b"
    and "eolSequence a = eolSequence b"
  shows "fst (txByteArray hex esc utf8 a) = fst (txByteArray hex esc utf8 b)
    \<and> snd (txByteArray hex esc utf8 a) = a \<and> snd (txByteArray hex esc utf8 b) = b"
  using assms by (simp add: txByteArray_def Let_def)

theorem txByteArray_pure_witness:
  "binaryData (Action 1) = binaryData ((Action 2)\<lparr>m_title := QStringLiteral ''Reset''\<rparr>)
   \<and> txData (Action 1) = txData ((Action 2)\<lparr>m_title := QStringLiteral ''Reset''\<rparr>)
   \<and> eolSequence (Action 1) = eolSequence ((Action 2)\<lparr>m_title := QStringLiteral ''Reset''\<rparr>)
   \<and> Action 1 \<noteq> (Action 2)\<lparr>m_title := QStringLiteral ''Reset''\<rparr>
   \<and> fst (txByteArray hexToBytes (\<lambda>s. s) (map ucast) (Action 1))
       = fst (txByteArray hexToBytes (\<lambda>s. s) (map ucast)
               ((Action 2)\<lparr>m_title := QStringLiteral ''Reset''\<rparr>))
   \<and> snd (txByteArray hexToBytes (\<lambda>s. s) (map ucast) (Action 1)) = Action 1"
proof -
  have h1: "binaryData (Action 1) = binaryData ((Action 2)\<lparr>m_title := QStringLiteral ''Reset''\<rparr>)"
    by (simp add: Action_def binaryData_def)
  have h2: "txData (Action 1) = txData ((Action 2)\<lparr>m_title := QStringLiteral ''Reset''\<rparr>)"
    by (simp add: Action_def txData_def)
  have h3: "eolSequence (Action 1) = eolSequence ((Action 2)\<lparr>m_title := QStringLiteral ''Reset''\<rparr>)"
    by (simp add: Action_def eolSequence_def)
  have ne: "Action 1 \<noteq> (Action 2)\<lparr>m_title := QStringLiteral ''Reset''\<rparr>"
    by (simp add: Action_def)
  show ?thesis
    using txByteArray_pure [OF h1 h2 h3, of hexToBytes "\<lambda>s. s" "map ucast"] h1 h2 h3 ne
    by simp
qed

subsection \<open>Binary mode and malformed text\<close>

lemma hexPairs_append:
  "even (length pre) \<Longrightarrow> hexPairs (pre @ post) = hexPairs pre @ hexPairs post"
  by (induction pre rule: hexPairs.induct) auto

lemma hexPair_malformed: "hexDigit c1 = None \<or> hexDigit c2 = None \<Longrightarrow> hexPair c1 c2 = []"
  by (auto simp: hexPair_def split: option.splits)

lemma length_hexPair: "length (hexPair c1 c2) \<le> 1"
  by (simp add: hexPair_def split: option.splits)

text \<open>The decoder never yields more than one byte for two characters of text.\<close>

lemma length_hexPairs: "2 * length (hexPairs s) \<le> length s"
proof (induction s rule: hexPairs.induct)
  case (1 hi lo rest)
  then show ?case using length_hexPair [of hi lo] by simp
qed simp_all

lemma length_hexToBytes: "2 * length (hexToBytes s) \<le> length s"
proof -
  have "2 * length (hexToBytes s) \<le> length (filter (\<lambda>c. \<not> isSpace c) s)"
    unfolding hexToBytes_def by (rule length_hexPairs)
  also have "\<dots> \<le> length s" by simp
  finally show ?thesis .
qed

text \<open>
  C7. With \<open>binaryData = true\<close>, \<open>txByteArray()\<close> returns a byte sequence for every \<open>txData\<close>:
  neither it nor the decoder has an error result. A malformed pair contributes no bytes: when
  the text, whitespace apart, is \<open>pre\<close>, then two characters of which one is not a hexadecimal
  digit, then \<open>post\<close>, with \<open>pre\<close> a whole number of pairs, the payload is what \<open>pre\<close> decodes
  to followed by what \<open>post\<close> decodes to (and the end-of-line bytes, if any). For
  \<open>txData = "4G"\<close> and no end-of-line text the payload is empty.
\<close>

theorem txByteArray_malformed_pair_dropped:
  assumes "binaryData a"
    and "filter (\<lambda>c. \<not> isSpace c) (txData a) = pre @ [c1, c2] @ post"
    and "even (length pre)"
    and "hexDigit c1 = None \<or> hexDigit c2 = None"
  shows "fst (txByteArray hexToBytes esc utf8 a) =
           hexPairs pre @ hexPairs post
           @ (if eolSequence a = [] then [] else utf8 (esc (eolSequence a)))"
proof -
  have "hexToBytes (txData a) = hexPairs pre @ hexPairs ([c1, c2] @ post)"
    using assms(2,3) by (simp add: hexToBytes_def hexPairs_append del: append.simps)
  also have "hexPairs ([c1, c2] @ post) = hexPairs post"
    using assms(4) by (simp add: hexPair_malformed)
  finally show ?thesis
    using assms(1) by (simp add: txByteArray_def Let_def)
qed

theorem txByteArray_malformed_pair_dropped_witness:
  "binaryData ((Action 0)\<lparr>m_binaryData := True, m_txData := QStringLiteral ''4G''\<rparr>)
   \<and> filter (\<lambda>c. \<not> isSpace c)
        (txData ((Action 0)\<lparr>m_binaryData := True, m_txData := QStringLiteral ''4G''\<rparr>))
       = [] @ [0x34, 0x47] @ []
   \<and> even (length ([] :: QString))
   \<and> (hexDigit 0x34 = None \<or> hexDigit 0x47 = None)
   \<and> fst (txByteArray hexToBytes (\<lambda>s. s) (map ucast)
            ((Action 0)\<lparr>m_binaryData := True, m_txData := QStringLiteral ''4G''\<rparr>)) = []"
proof -
  let ?a = "(Action 0)\<lparr>m_binaryData := True, m_txData := QStringLiteral ''4G''\<rparr>"
  have h1: "binaryData ?a"
    by (simp add: binaryData_def)
  have h2: "filter (\<lambda>c. \<not> isSpace c) (txData ?a) = [] @ [0x34, 0x47] @ []"
    by (simp add: txData_def QStringLiteral_def isSpace_def)
  have h3: "even (length ([] :: QString))"
    by simp
  have h4: "hexDigit 0x34 = None \<or> hexDigit 0x47 = None"
    by (simp add: hexDigit_def)
  have e: "eolSequence ?a = []"
    by (simp add: eolSequence_def Action_def)
  show ?thesis
    using txByteArray_malformed_pair_dropped [OF h1 h2 h3 h4, of "\<lambda>s. s" "map ucast"] h1 h2 h3 h4 e
    by simp
qed

section \<open>The persistence codec\<close>

lemma serialize_object:
  "fst (serialize ofInt this) =
     [(QStringLiteral ''icon'', String (m_icon this)),
      (QStringLiteral ''txData'', String (m_txData this)),
      (QStringLiteral ''eol'', String (m_eolSequence this)),
      (QStringLiteral ''binary'', Bool (m_binaryData this)),
      (QStringLiteral ''title'', String (simplified (m_title this))),
      (QStringLiteral ''timerIntervalMs'', Double (ofInt (m_timerIntervalMs this))),
      (QStringLiteral ''timerMode'', Double (ofInt (underlying (m_timerMode this)))),
      (QStringLiteral ''autoExecuteOnConnect'', Bool (m_autoExecuteOnConnect this))]"
  by (simp add: serialize_def QJsonObject_insert_def)

text \<open>
  C6. For every Action, \<open>serialize()\<close> returns an object whose keys are exactly \<open>icon\<close>,
  \<open>txData\<close>, \<open>eol\<close>, \<open>binary\<close>, \<open>title\<close>, \<open>timerIntervalMs\<close>, \<open>timerMode\<close> and
  \<open>autoExecuteOnConnect\<close>, each once. Under \<open>title\<close> it stores the simplified title, a
  string without whitespace at either end and with single spaces only inside; under
  \<open>timerMode\<close> the underlying integer of the timer mode. There is no key \<open>actionId\<close>, and the
  object does not depend on the action id.
\<close>

theorem serialize_keys:
  "QJsonObject_keys (fst (serialize ofInt a)) =
     QStringLiteral ` {''icon'', ''txData'', ''eol'', ''binary'', ''title'', ''timerIntervalMs'',
                       ''timerMode'', ''autoExecuteOnConnect''}
   \<and> distinct (map fst (fst (serialize ofInt a)))
   \<and> map_of (fst (serialize ofInt a)) (QStringLiteral ''title'')
       = Some (String (simplified (title a)))
   \<and> is_simplified (simplified (title a))
   \<and> map_of (fst (serialize ofInt a)) (QStringLiteral ''timerMode'')
       = Some (Double (ofInt (underlying (timerMode a))))
   \<and> QStringLiteral ''actionId'' \<notin> QJsonObject_keys (fst (serialize ofInt a))
   \<and> fst (serialize ofInt (a\<lparr>m_actionId := i\<rparr>)) = fst (serialize ofInt a)"
  by (simp add: serialize_object QJsonObject_keys_def accessors is_simplified_simplified)

text \<open>
  C3. \<open>read(object)\<close> returns false exactly when the object has no key: for every object with
  at least one key it returns true, whichever keys these are.
\<close>

theorem read_returns_nonempty:
  "fst (read double_toInt this object) = (QJsonObject_keys object \<noteq> {})"
  by (simp add: read_def QJsonObject_isEmpty_def QJsonObject_keys_def)

text \<open>
  C10. \<open>read\<close> of the empty object returns false and leaves the whole Action, the action id
  included, as it was.
\<close>

theorem read_empty_noop: "read double_toInt this [] = (False, this)"
  by (simp add: read_def QJsonObject_isEmpty_def)

text \<open>
  C4. For every object that has a key but none of the eight expected ones, \<open>read\<close> returns true
  and sets \<open>eolSequence\<close>, \<open>txData\<close>, \<open>icon\<close> and \<open>title\<close> to the empty string,
  \<open>binaryData\<close> and \<open>autoExecuteOnConnect\<close> to false, \<open>timerIntervalMs\<close> to 100 and
  \<open>timerMode\<close> to \<open>Off\<close>.
\<close>

theorem read_default_fill:
  assumes "QJsonObject_keys object \<noteq> {}"
    and "set expected_keys \<inter> QJsonObject_keys object = {}"
  shows "read double_toInt this object =
     (True, this\<lparr> m_eolSequence := [], m_txData := [], m_binaryData := False,
                  m_timerIntervalMs := 100, m_icon := [], m_title := [],
                  m_autoExecuteOnConnect := False, m_timerMode := Off \<rparr>)"
proof -
  have none: "map_of object k = None" if "k \<in> set expected_keys" for k
    using that assms(2) by (auto simp: map_of_eq_None_iff QJsonObject_keys_def)
  have ne: "object \<noteq> []"
    using assms(1) by (auto simp: QJsonObject_keys_def)
  show ?thesis
    using ne
    by (simp add: read_def QJsonObject_isEmpty_def SAFE_READ_map_of none expected_keys_def)
qed

theorem read_default_fill_witness:
  "QJsonObject_keys [(QStringLiteral ''unused'', Double (1 :: int))] \<noteq> {}
   \<and> set expected_keys \<inter> QJsonObject_keys [(QStringLiteral ''unused'', Double (1 :: int))] = {}
   \<and> read word_of_int
        ((Action 4)\<lparr>m_title := QStringLiteral ''Reset'', m_binaryData := True,
                    m_timerIntervalMs := 250, m_timerMode := AutoStart\<rparr>)
        [(QStringLiteral ''unused'', Double (1 :: int))]
       = (True,
          \<lparr> m_actionId = 4, m_binaryData = False, m_icon = [], m_title = [], m_txData = [],
            m_eolSequence = [], m_timerIntervalMs = 100, m_timerMode = Off,
            m_autoExecuteOnConnect = False \<rparr>)"
proof -
  let ?object = "[(QStringLiteral ''unused'', Double (1 :: int))]"
  have h1: "QJsonObject_keys ?object \<noteq> {}"
    by (simp add: QJsonObject_keys_def)
  have h2: "set expected_keys \<inter> QJsonObject_keys ?object = {}"
    by (simp add: QJsonObject_keys_def expected_keys_def)
  show ?thesis
    using read_default_fill [OF h1 h2, of word_of_int
        "(Action 4)\<lparr>m_title := QStringLiteral ''Reset'', m_binaryData := True,
                    m_timerIntervalMs := 250, m_timerMode := AutoStart\<rparr>"] h1 h2
    by (simp add: Action_def)
qed

text \<open>
  C5, as amended. \<open>read\<close> does not validate the stored timer mode. When the object holds a
  number under \<open>timerMode\<close>, \<open>read\<close> returns true and \<open>timerMode\<close> becomes the enum value whose
  underlying integer is that number converted to \<open>int\<close>; it is one of the four named values
  exactly when this integer is 0, 1, 2 or 3, and a value outside the four otherwise.
\<close>

theorem read_timerMode_unvalidated:
  assumes "map_of object (QStringLiteral ''timerMode'') = Some (Double d)"
  shows "fst (read double_toInt this object)
    \<and> underlying (timerMode (snd (read double_toInt this object))) = double_toInt d
    \<and> named (timerMode (snd (read double_toInt this object))) = (double_toInt d \<in> {0, 1, 2, 3})"
proof -
  have ne: "object \<noteq> []"
    using assms by auto
  then show ?thesis
    using assms
    by (simp add: read_def QJsonObject_isEmpty_def SAFE_READ_map_of timerMode_def named_iff)
qed

theorem read_timerMode_unvalidated_witness:
  "map_of [(QStringLiteral ''timerMode'', Double (2 :: int))] (QStringLiteral ''timerMode'')
     = Some (Double 2)
   \<and> fst (read word_of_int (Action 0) [(QStringLiteral ''timerMode'', Double (2 :: int))])
   \<and> timerMode (snd (read word_of_int (Action 0)
        [(QStringLiteral ''timerMode'', Double (2 :: int))])) = StartOnTrigger
   \<and> named (timerMode (snd (read word_of_int (Action 0)
        [(QStringLiteral ''timerMode'', Double (2 :: int))])))"
proof -
  have h: "map_of [(QStringLiteral ''timerMode'', Double (2 :: int))]
             (QStringLiteral ''timerMode'') = Some (Double 2)"
    by simp
  have "m = StartOnTrigger" if "underlying m = 2" for m
    using that by (cases m) (simp add: StartOnTrigger_def)
  then show ?thesis
    using h read_timerMode_unvalidated [OF h, of word_of_int "Action 0"] by simp
qed

text \<open>
  C5 as the spec has it says that \<open>timerMode\<close> is always one of the four defined values.
  Reading an object that stores 7 under \<open>timerMode\<close> into a fresh Action leaves a timer mode
  that is none of the four.
\<close>

theorem read_timerMode_counterexample:
  "\<not> named (timerMode (snd (read word_of_int (Action 0)
        [(QStringLiteral ''timerMode'', Double (7 :: int))])))"
  by (simp add: read_def QJsonObject_isEmpty_def SAFE_READ_map_of timerMode_def named_iff)

text \<open>
  Whatever \<open>icon\<close> and \<open>title\<close> are, the round trip yields the Action with both simplified:
  \<open>read\<close> simplifies the icon, \<open>serialize\<close> and \<open>read\<close> both simplify the title, and
  simplifying twice is simplifying once.
\<close>

lemma read_serialize_simplifies:
  assumes conv: "\<And>n. double_toInt (ofInt n) = n"
  shows "read double_toInt (Action i) (fst (serialize ofInt a)) =
     (True, a\<lparr>m_actionId := i, m_icon := simplified (m_icon a),
               m_title := simplified (m_title a)\<rparr>)"
  by (simp add: read_def serialize_object SAFE_READ_map_of QJsonObject_isEmpty_def conv
      Action_def simplified_idem)

text \<open>
  C1. Let the conversion of a JSON number to \<open>int\<close> undo \<open>QJsonValue(int)\<close>, and let \<open>icon\<close>
  and \<open>title\<close> of the Action \<open>a\<close> be simplified already. Then \<open>read\<close> of \<open>serialize(a)\<close> on a
  fresh \<open>Action(i)\<close> returns true and yields \<open>a\<close> in every field but the action id, which stays
  the \<open>i\<close> of the constructor; with \<open>i\<close> the id of \<open>a\<close> the result is \<open>a\<close> itself.
\<close>

theorem read_serialize_roundtrip:
  assumes conv: "\<And>n. double_toInt (ofInt n) = n"
    and icon: "simplified (icon a) = icon a"
    and title: "simplified (title a) = title a"
  shows "read double_toInt (Action i) (fst (serialize ofInt a)) = (True, a\<lparr>m_actionId := i\<rparr>)"
  using icon title
  by (simp add: read_def serialize_object SAFE_READ_map_of QJsonObject_isEmpty_def conv
      Action_def accessors)

theorem read_serialize_roundtrip_witness:
  "(\<forall>n :: cint. word_of_int (sint n) = n)
   \<and> simplified (icon ((Action 7)\<lparr>m_title := QStringLiteral ''Hello World'',
        m_txData := QStringLiteral ''41 42'', m_binaryData := True,
        m_timerIntervalMs := 250, m_timerMode := ToggleOnTrigger\<rparr>))
       = icon ((Action 7)\<lparr>m_title := QStringLiteral ''Hello World'',
        m_txData := QStringLiteral ''41 42'', m_binaryData := True,
        m_timerIntervalMs := 250, m_timerMode := ToggleOnTrigger\<rparr>)
   \<and> simplified (title ((Action 7)\<lparr>m_title := QStringLiteral ''Hello World'',
        m_txData := QStringLiteral ''41 42'', m_binaryData := True,
        m_timerIntervalMs := 250, m_timerMode := ToggleOnTrigger\<rparr>))
       = title ((Action 7)\<lparr>m_title := QStringLiteral ''Hello World'',
        m_txData := QStringLiteral ''41 42'', m_binaryData := True,
        m_timerIntervalMs := 250, m_timerMode := ToggleOnTrigger\<rparr>)
   \<and> read word_of_int (Action 7)
        (fst (serialize sint ((Action 7)\<lparr>m_title := QStringLiteral ''Hello World'',
           m_txData := QStringLiteral ''41 42'', m_binaryData := True,
           m_timerIntervalMs := 250, m_timerMode := ToggleOnTrigger\<rparr>)))
       = (True, (Action 7)\<lparr>m_title := QStringLiteral ''Hello World'',
           m_txData := QStringLiteral ''41 42'', m_binaryData := True,
           m_timerIntervalMs := 250, m_timerMode := ToggleOnTrigger\<rparr>)"
proof -
  let ?a = "(Action 7)\<lparr>m_title := QStringLiteral ''Hello World'',
        m_txData := QStringLiteral ''41 42'', m_binaryData := True,
        m_timerIntervalMs := 250, m_timerMode := ToggleOnTrigger\<rparr>"
  have h1: "word_of_int (sint n) = n" for n :: cint
    by simp
  have h2: "simplified (icon ?a) = icon ?a"
    by code_simp
  have h3: "simplified (title ?a) = title ?a"
    by code_simp
  have id: "?a\<lparr>m_actionId := 7\<rparr> = ?a"
    by (simp add: Action_def)
  show ?thesis
    using read_serialize_roundtrip [of word_of_int sint ?a 7, OF h1 h2 h3] h1 h2 h3
    by (simp only: id) simp
qed

end
